theory Spec2Isabelle
  imports Complex_Main
begin

section \<open>The devices and constants of main.cpp\<close>

text \<open>
  main.cpp declares two GPIO objects, two timers and three callback routines at namespace
  scope. Each becomes a constructor of an enumeration; the constructor arguments of the
  objects are kept as lookup functions.
\<close>

datatype gpio = errorLed | predictionButton

datatype direction = Output | Input | InputPullup

datatype timer = debounceTimer | predictionTimer

datatype callback = buttonCallbackFn | debounceTimerCallbackFn | predictionTimerCallbackFn

text \<open>
  Modelled from the spec: the enumeration \<open>watchdog::Timeout\<close> is declared in watchdog.h,
  which is not among the sources; main.cpp names only \<open>Timeout1024ms\<close>. The spec gives
  the range (about 16 ms up to about 8 s); the buckets double from one to the next.
\<close>

datatype timeout =
    Timeout16ms | Timeout32ms | Timeout64ms | Timeout128ms | Timeout256ms
  | Timeout512ms | Timeout1024ms | Timeout2048ms | Timeout4096ms | Timeout8192ms

fun timeout_ms :: "timeout \<Rightarrow> nat" where
  "timeout_ms Timeout16ms = 16"
| "timeout_ms Timeout32ms = 32"
| "timeout_ms Timeout64ms = 64"
| "timeout_ms Timeout128ms = 128"
| "timeout_ms Timeout256ms = 256"
| "timeout_ms Timeout512ms = 512"
| "timeout_ms Timeout1024ms = 1024"
| "timeout_ms Timeout2048ms = 2048"
| "timeout_ms Timeout4096ms = 4096"
| "timeout_ms Timeout8192ms = 8192"

fun gpio_pin :: "gpio \<Rightarrow> nat" where
  "gpio_pin errorLed = 9"
| "gpio_pin predictionButton = 13"

fun gpio_direction :: "gpio \<Rightarrow> direction" where
  "gpio_direction errorLed = Output"
| "gpio_direction predictionButton = InputPullup"

fun timer_period_ms :: "timer \<Rightarrow> nat" where
  "timer_period_ms debounceTimer = 300"
| "timer_period_ms predictionTimer = 60000"

definition tempSensorPin :: nat where
  "tempSensorPin = 2"

definition Vcc :: real where
  "Vcc = 5.0"

section \<open>Calls into the drivers and collaborators\<close>

text \<open>
  Everything main.cpp does is a call into a driver (gpio, timer, watchdog) or into a
  collaborator (adc, serial, ml::LinReg). A routine of main.cpp is embedded as the sequence
  of calls it makes, in program order. Values of type \<open>double\<close> are idealised as reals;
  no property below depends on the numbers that are printed. The two \<open>container::Vector\<close>
  objects of \<open>setup\<close> are plain data and appear as lists.
\<close>

datatype call =
    AdcInit
  | AdcGetDutyCycle nat
  | SerialInit
  | SerialPrintf string "int list"
  | LinRegConstruct real real "real list" "real list" real
  | LinRegTrain nat
  | LinRegPredict real
  | GpioSet gpio
  | GpioRead gpio
  | GpioAddCallback gpio callback
  | GpioEnableInterrupt gpio
  | GpioDisableInterruptsOnIoPort gpio
  | GpioEnableInterruptsOnIoPort gpio
  | TimerStart timer
  | TimerStop timer
  | TimerAddCallback timer callback
  | WatchdogInit timeout
  | WatchdogEnableSystemReset
  | WatchdogReset

text \<open>
  What the collaborators return is not decided by main.cpp. It is a parameter of the
  embedding: \<open>train_result w n\<close> is what \<open>linReg.train(n)\<close> returns, \<open>predict_result w x\<close>
  what \<open>linReg.predict(x)\<close> returns, \<open>duty_cycle w p\<close> what \<open>adc::getDutyCycle(p)\<close> returns.
\<close>

record world =
  train_result :: "nat \<Rightarrow> bool"
  predict_result :: "real \<Rightarrow> real"
  duty_cycle :: "nat \<Rightarrow> real"

section \<open>The routines of main.cpp\<close>

text \<open>\<open>inputVoltage\<close>: one call to the ADC, the result scaled by the supply voltage.\<close>

definition inputVoltage :: "world \<Rightarrow> nat \<Rightarrow> call list \<times> real" where
  "inputVoltage w pin = ([AdcGetDutyCycle pin], duty_cycle w pin * Vcc)"

text \<open>
  \<open>buttonCallback\<close>: the argument is the level that \<open>predictionButton.read()\<close> returns.
  Both branches of the conditional are empty in the source: the body of the \<open>if\<close> holds
  two comments and no statement.
\<close>

definition buttonCallback :: "bool \<Rightarrow> call list" where
  "buttonCallback level =
     [GpioDisableInterruptsOnIoPort predictionButton, TimerStart debounceTimer,
      GpioRead predictionButton]
     @ (if level then [] else [])"

definition debounceTimerCallback :: "call list" where
  "debounceTimerCallback =
     [TimerStop debounceTimer, GpioEnableInterruptsOnIoPort predictionButton]"

text \<open>\<open>predictionTimerCallback\<close>: the body holds one comment and no statement.\<close>

definition predictionTimerCallback :: "call list" where
  "predictionTimerCallback = []"

text \<open>A registered function pointer, called with the level the button pin has.\<close>

fun invoke :: "callback \<Rightarrow> bool \<Rightarrow> call list" where
  "invoke buttonCallbackFn level = buttonCallback level"
| "invoke debounceTimerCallbackFn level = debounceTimerCallback"
| "invoke predictionTimerCallbackFn level = predictionTimerCallback"

definition trainingInput :: "real list" where
  "trainingInput = [0.0, 0.1, 0.2, 0.3, 0.4, 0.5, 0.6, 0.7, 0.8, 0.9, 1.0]"

definition treiningOutput :: "real list" where
  "treiningOutput = [-50, -40, -30, -20, -10, 0, 10, 20, 30, 40, 50]"

text \<open>\<open>static_cast<int>\<close> of a double truncates towards zero.\<close>

definition static_cast_int :: "real \<Rightarrow> int" where
  "static_cast_int x = (if x < 0 then \<lceil>x\<rceil> else \<lfloor>x\<rfloor>)"

text \<open>
  The range-based \<open>for\<close> loop of \<open>setup\<close>: for each input one call of \<open>predict\<close> for the
  comparison, a second one for the value, and one \<open>printf\<close>.
\<close>

fun print_predictions :: "world \<Rightarrow> real list \<Rightarrow> call list" where
  "print_predictions w [] = []"
| "print_predictions w (input # inputs) =
     (if predict_result w input < 0
      then [LinRegPredict input, LinRegPredict input,
            SerialPrintf ''%d '' [static_cast_int (predict_result w input - 0.5)]]
      else [LinRegPredict input, LinRegPredict input,
            SerialPrintf ''%d '' [static_cast_int (predict_result w input + 0.5)]])
     @ print_predictions w inputs"

definition "setup" :: "world \<Rightarrow> call list" where
  "setup w =
     [AdcInit, SerialInit,
      LinRegConstruct 0.0 0.0 trainingInput treiningOutput 0.1,
      LinRegTrain 100]
     @ (if \<not> train_result w 100
        then [GpioSet errorLed, SerialPrintf ''Training failed!\<newline>'' []]
        else print_predictions w trainingInput
             @ [GpioAddCallback predictionButton buttonCallbackFn,
                TimerAddCallback debounceTimer debounceTimerCallbackFn,
                TimerAddCallback predictionTimer predictionTimerCallbackFn,
                GpioEnableInterrupt predictionButton,
                WatchdogInit Timeout1024ms,
                WatchdogEnableSystemReset])"

text \<open>
  \<open>main\<close> never returns: after \<open>setup\<close> it runs \<open>while (1)\<close>. \<open>main w n\<close> is the sequence
  of calls \<open>main\<close> has made when the loop body has run \<open>n\<close> times; it is defined for
  every \<open>n\<close>.
\<close>

definition loop_body :: "call list" where
  "loop_body = [WatchdogReset]"

primrec main_loop :: "nat \<Rightarrow> call list" where
  "main_loop 0 = []"
| "main_loop (Suc n) = loop_body @ main_loop n"

definition main :: "world \<Rightarrow> nat \<Rightarrow> call list" where
  "main w n = setup w @ main_loop n"

section \<open>Classes of calls\<close>

fun is_registration :: "call \<Rightarrow> bool" where
  "is_registration (GpioAddCallback p f) = True"
| "is_registration (TimerAddCallback t f) = True"
| "is_registration c = False"

fun is_interrupt_enable :: "call \<Rightarrow> bool" where
  "is_interrupt_enable (GpioEnableInterrupt p) = True"
| "is_interrupt_enable (GpioEnableInterruptsOnIoPort p) = True"
| "is_interrupt_enable c = False"

fun is_watchdog_init :: "call \<Rightarrow> bool" where
  "is_watchdog_init (WatchdogInit t) = True"
| "is_watchdog_init c = False"

fun is_train :: "call \<Rightarrow> bool" where
  "is_train (LinRegTrain n) = True"
| "is_train c = False"

fun is_predict :: "call \<Rightarrow> bool" where
  "is_predict (LinRegPredict x) = True"
| "is_predict c = False"

section \<open>The devices behind the calls\<close>

text \<open>
  Modelled from the spec: gpio.h, timer.h and watchdog.h are not among the sources, so the
  state of the devices and the effect of each driver call follow sections 3 and 4 of the
  spec. A pin has an output level, a single callback slot and an interrupt-enable flag;
  \<open>port_interrupts p\<close> is the interrupt mask of the I/O port that pin \<open>p\<close> belongs to
  (main.cpp addresses a port through \<open>predictionButton\<close> only). A timer has a running flag
  and a single callback slot. The watchdog has a timeout bucket once initialised and a
  reset mode; initialising it twice is fatal. Time is not part of the state.
\<close>

record hw =
  pin_output :: "gpio \<Rightarrow> bool"
  pin_callback :: "gpio \<Rightarrow> callback option"
  pin_interrupt :: "gpio \<Rightarrow> bool"
  port_interrupts :: "gpio \<Rightarrow> bool"
  timer_running :: "timer \<Rightarrow> bool"
  timer_callback :: "timer \<Rightarrow> callback option"
  watchdog_timeout :: "timeout option"
  watchdog_system_reset :: bool
  watchdog_fatal :: bool

text \<open>Modelled from the spec: the power-on defaults, to which a reset returns every device.\<close>

definition power_on :: hw where
  "power_on =
     \<lparr>pin_output = (\<lambda>p. False), pin_callback = (\<lambda>p. None), pin_interrupt = (\<lambda>p. False),
      port_interrupts = (\<lambda>p. False), timer_running = (\<lambda>t. False),
      timer_callback = (\<lambda>t. None), watchdog_timeout = None,
      watchdog_system_reset = False, watchdog_fatal = False\<rparr>"

text \<open>
  Modelled from the spec: the effect of one call on the devices. \<open>addCallback\<close> overwrites
  the slot (the last registration wins). \<open>enableInterrupt\<close> enables the pin's interrupt
  and the interrupts of its port (after \<open>setup\<close> the debounce state machine is in \<open>Idle\<close>,
  where port interrupts are enabled). \<open>start\<close> and \<open>stop\<close> set and clear the running flag.
  Servicing the watchdog and the calls into adc, serial and ml::LinReg leave the devices
  as they are.
\<close>

fun exec :: "call \<Rightarrow> hw \<Rightarrow> hw" where
  "exec (GpioSet p) h = h\<lparr>pin_output := (pin_output h)(p := True)\<rparr>"
| "exec (GpioAddCallback p f) h = h\<lparr>pin_callback := (pin_callback h)(p := Some f)\<rparr>"
| "exec (GpioEnableInterrupt p) h =
     h\<lparr>pin_interrupt := (pin_interrupt h)(p := True),
       port_interrupts := (port_interrupts h)(p := True)\<rparr>"
| "exec (GpioDisableInterruptsOnIoPort p) h =
     h\<lparr>port_interrupts := (port_interrupts h)(p := False)\<rparr>"
| "exec (GpioEnableInterruptsOnIoPort p) h =
     h\<lparr>port_interrupts := (port_interrupts h)(p := True)\<rparr>"
| "exec (TimerStart t) h = h\<lparr>timer_running := (timer_running h)(t := True)\<rparr>"
| "exec (TimerStop t) h = h\<lparr>timer_running := (timer_running h)(t := False)\<rparr>"
| "exec (TimerAddCallback t f) h = h\<lparr>timer_callback := (timer_callback h)(t := Some f)\<rparr>"
| "exec (WatchdogInit b) h =
     (if watchdog_timeout h = None then h\<lparr>watchdog_timeout := Some b\<rparr>
      else h\<lparr>watchdog_fatal := True\<rparr>)"
| "exec WatchdogEnableSystemReset h = h\<lparr>watchdog_system_reset := True\<rparr>"
| "exec c h = h"

text \<open>Modelled from the spec: a sequence of calls takes effect call by call.\<close>

definition run :: "call list \<Rightarrow> hw \<Rightarrow> hw" where
  "run cs h = fold exec cs h"

text \<open>
  Modelled from the spec: the watchdog supervises the system, forcing a reset when it is
  not serviced, once it has been initialised with a timeout and put in system-reset mode.
\<close>

definition watchdog_armed :: "hw \<Rightarrow> bool" where
  "watchdog_armed h = (watchdog_timeout h \<noteq> None \<and> watchdog_system_reset h)"

section \<open>The running system\<close>

text \<open>
  Modelled from the spec (section 5): one thread of normal execution, \<open>main\<close>, preempted by
  interrupt handlers that run to completion. The state holds the devices, the calls of
  \<open>setup\<close> that \<open>main\<close> has not made yet (once there are none, \<open>main\<close> is in its loop), the
  level of the button pin and the callbacks dispatched so far, in order.
\<close>

record sys =
  devices :: hw
  pending :: "call list"
  button_level :: bool
  dispatched :: "callback list"

text \<open>
  Modelled from the spec: at boot the devices are at their power-on defaults, \<open>main\<close> has
  all of \<open>setup\<close> before it, and nothing has been dispatched; \<open>level\<close> is the level of the
  button pin at that moment.
\<close>

definition boot :: "world \<Rightarrow> bool \<Rightarrow> sys" where
  "boot w level =
     \<lparr>devices = power_on, pending = setup w, button_level = level, dispatched = []\<rparr>"

text \<open>
  Modelled from the spec: what can happen next.
  \<open>MainCall\<close>: \<open>main\<close> makes its next call (in the loop: runs the loop body once).
  \<open>PinChange l\<close>: the button pin takes level \<open>l\<close>. \<open>TimerElapse t\<close>: the period of timer \<open>t\<close>
  elapses.
\<close>

datatype event = MainCall | PinChange bool | TimerElapse timer

text \<open>
  Modelled from the spec: a dispatched callback runs to completion; the level it reads is
  the level the button pin has.
\<close>

definition dispatch :: "callback \<Rightarrow> sys \<Rightarrow> sys" where
  "dispatch f s =
     s\<lparr>devices := run (invoke f (button_level s)) (devices s),
       dispatched := dispatched s @ [f]\<rparr>"

text \<open>
  Modelled from the spec: a change of the pin's level dispatches the pin's callback when
  the pin's interrupt and the interrupts of its port are enabled; while the port is masked
  the change passes without a dispatch. With an empty callback slot nothing is dispatched
  (the spec leaves that case undefined). A timer dispatches its callback when its period
  elapses while it is running. An event that cannot occur in a state leaves it unchanged.
\<close>

fun step :: "event \<Rightarrow> sys \<Rightarrow> sys" where
  "step MainCall s =
     (case pending s of
        [] \<Rightarrow> s\<lparr>devices := run loop_body (devices s)\<rparr>
      | c # cs \<Rightarrow> s\<lparr>devices := exec c (devices s), pending := cs\<rparr>)"
| "step (PinChange level) s =
     (if level = button_level s then s
      else if pin_interrupt (devices s) predictionButton
              \<and> port_interrupts (devices s) predictionButton
      then (case pin_callback (devices s) predictionButton of
              None \<Rightarrow> s\<lparr>button_level := level\<rparr>
            | Some f \<Rightarrow> dispatch f (s\<lparr>button_level := level\<rparr>))
      else s\<lparr>button_level := level\<rparr>)"
| "step (TimerElapse t) s =
     (if timer_running (devices s) t
      then (case timer_callback (devices s) t of None \<Rightarrow> s | Some f \<Rightarrow> dispatch f s)
      else s)"

text \<open>Modelled from the spec: a run of the system is a sequence of events.\<close>

definition steps :: "event list \<Rightarrow> sys \<Rightarrow> sys" where
  "steps es s = fold step es s"

section \<open>Two collaborator behaviours\<close>

text \<open>
  Concrete behaviours of the collaborators, for running the embedding: in \<open>world_ok\<close>
  training succeeds and the model predicts \<open>100 x - 50\<close>; in \<open>world_failed\<close> training
  fails.
\<close>

definition world_ok :: world where
  "world_ok =
     \<lparr>train_result = (\<lambda>n. True), predict_result = (\<lambda>x. 100 * x - 50),
      duty_cycle = (\<lambda>p. 0)\<rparr>"

definition world_failed :: world where
  "world_failed =
     \<lparr>train_result = (\<lambda>n. False), predict_result = (\<lambda>x. 0), duty_cycle = (\<lambda>p. 0)\<rparr>"

section \<open>Invariants of the running system\<close>

text \<open>
  \<open>wired\<close>: each callback slot that main.cpp fills is empty or holds the routine that
  \<open>setup\<close> registers there.
\<close>

definition wired :: "hw \<Rightarrow> bool" where
  "wired h =
     (pin_callback h predictionButton \<in> {None, Some buttonCallbackFn}
      \<and> timer_callback h debounceTimer \<in> {None, Some debounceTimerCallbackFn}
      \<and> timer_callback h predictionTimer \<in> {None, Some predictionTimerCallbackFn})"

text \<open>
  \<open>harmless\<close>: a call that keeps the slots wired and does not unmask the button's port
  through \<open>enableInterruptsOnIoPort\<close>.
\<close>

fun harmless :: "call \<Rightarrow> bool" where
  "harmless (GpioAddCallback p f) = (p = predictionButton \<longrightarrow> f = buttonCallbackFn)"
| "harmless (TimerAddCallback t f) =
     (f = (case t of debounceTimer \<Rightarrow> debounceTimerCallbackFn
                   | predictionTimer \<Rightarrow> predictionTimerCallbackFn))"
| "harmless (GpioEnableInterruptsOnIoPort p) = (p \<noteq> predictionButton)"
| "harmless c = True"

text \<open>
  The invariant behind the debounce handshake: the slots are wired, the rest of \<open>setup\<close>
  is harmless and enables the button's interrupt at most once, and not at all once that
  interrupt is enabled.
\<close>

definition handshake_inv :: "sys \<Rightarrow> bool" where
  "handshake_inv s =
     (wired (devices s)
      \<and> list_all harmless (pending s)
      \<and> count_list (pending s) (GpioEnableInterrupt predictionButton) \<le> 1
      \<and> (pin_interrupt (devices s) predictionButton
           \<longrightarrow> GpioEnableInterrupt predictionButton \<notin> set (pending s)))"

text \<open>\<open>masked\<close>: the button's interrupt is enabled and its port is masked (\<open>Settling\<close>).\<close>

definition masked :: "sys \<Rightarrow> bool" where
  "masked s =
     (pin_interrupt (devices s) predictionButton
      \<and> \<not> port_interrupts (devices s) predictionButton)"

text \<open>The watchdog is not initialised and the rest of \<open>setup\<close> does not initialise it.\<close>

definition unarmed_inv :: "sys \<Rightarrow> bool" where
  "unarmed_inv s =
     (watchdog_timeout (devices s) = None
      \<and> list_all (\<lambda>c. \<not> is_watchdog_init c) (pending s))"

text \<open>\<open>predictionTimer\<close> is not running and the rest of \<open>setup\<close> does not start it.\<close>

definition stopped_inv :: "sys \<Rightarrow> bool" where
  "stopped_inv s =
     (\<not> timer_running (devices s) predictionTimer
      \<and> list_all (\<lambda>c. c \<noteq> TimerStart predictionTimer) (pending s))"

section \<open>Facts about call sequences\<close>

lemma print_predictions_all:
  assumes "\<And>x. P (LinRegPredict x)" and "\<And>v. P (SerialPrintf ''%d '' [v])"
  shows "\<forall>c \<in> set (print_predictions w xs). P c"
  using assms by (induction xs) auto

lemma length_print_predictions: "length (print_predictions w xs) = 3 * length xs"
  by (induction xs) auto

lemma length_trainingInput: "length trainingInput = 11"
  by (simp add: trainingInput_def)

lemma setup_success:
  "train_result w 100 \<Longrightarrow>
   setup w =
     ([AdcInit, SerialInit, LinRegConstruct 0.0 0.0 trainingInput treiningOutput 0.1,
       LinRegTrain 100]
      @ print_predictions w trainingInput
      @ [GpioAddCallback predictionButton buttonCallbackFn,
         TimerAddCallback debounceTimer debounceTimerCallbackFn,
         TimerAddCallback predictionTimer predictionTimerCallbackFn])
     @ [GpioEnableInterrupt predictionButton, WatchdogInit Timeout1024ms,
        WatchdogEnableSystemReset]"
  by (simp add: setup_def)

lemma main_loop_replicate: "main_loop n = replicate n WatchdogReset"
  by (induction n) (simp_all add: loop_body_def)

lemma main_loop_snoc: "main_loop (Suc n) = main_loop n @ [WatchdogReset]"
  by (simp add: main_loop_replicate replicate_append_same)

lemma count_list_replicate_same: "count_list (replicate n x) x = n"
  by (induction n) simp_all

text \<open>
  When every call before a point is not of kind \<open>Q\<close> and every call from that point on
  is not of kind \<open>P\<close>, each \<open>P\<close>-call stands before each \<open>Q\<close>-call.
\<close>

lemma nth_split:
  assumes "\<forall>c \<in> set pre. \<not> Q c" and "\<forall>c \<in> set post. \<not> P c"
    and "i < length (pre @ post)" and "j < length (pre @ post)"
    and "P ((pre @ post) ! i)" and "Q ((pre @ post) ! j)"
  shows "i < j"
proof -
  have "i < length pre"
  proof (rule ccontr)
    assume "\<not> i < length pre"
    then have "(pre @ post) ! i = post ! (i - length pre)" and "i - length pre < length post"
      using assms(3) by (auto simp: nth_append)
    then have "(pre @ post) ! i \<in> set post" by simp
    with assms(2,5) show False by blast
  qed
  moreover have "\<not> j < length pre"
  proof
    assume "j < length pre"
    then have "(pre @ post) ! j \<in> set pre" by (simp add: nth_append)
    with assms(1,6) show False by blast
  qed
  ultimately show ?thesis by simp
qed

lemma main_never_starts_a_timer: "TimerStart t \<notin> set (main w n)"
proof -
  have "\<forall>c \<in> set (print_predictions w trainingInput). c \<noteq> TimerStart t"
    by (rule print_predictions_all) simp_all
  then show ?thesis
    by (auto simp: main_def setup_def main_loop_replicate)
qed

lemma main_never_enables_port: "GpioEnableInterruptsOnIoPort p \<notin> set (main w n)"
proof -
  have "\<forall>c \<in> set (print_predictions w trainingInput). c \<noteq> GpioEnableInterruptsOnIoPort p"
    by (rule print_predictions_all) simp_all
  then show ?thesis
    by (auto simp: main_def setup_def main_loop_replicate)
qed

lemma start_only_in_buttonCallback:
  "TimerStart debounceTimer \<in> set (invoke f l) \<longleftrightarrow> f = buttonCallbackFn"
  by (cases f)
     (simp_all add: buttonCallback_def debounceTimerCallback_def predictionTimerCallback_def)

lemma enable_only_in_debounceTimerCallback:
  "GpioEnableInterruptsOnIoPort predictionButton \<in> set (invoke f l)
     \<longleftrightarrow> f = debounceTimerCallbackFn"
  by (cases f)
     (simp_all add: buttonCallback_def debounceTimerCallback_def predictionTimerCallback_def)

lemma setup_harmless: "list_all harmless (setup w)"
proof -
  have "\<forall>c \<in> set (print_predictions w trainingInput). harmless c"
    by (rule print_predictions_all) simp_all
  then show ?thesis
    by (simp add: setup_def list_all_iff)
qed

lemma setup_enable_once: "count_list (setup w) (GpioEnableInterrupt predictionButton) \<le> 1"
proof -
  have "\<forall>c \<in> set (print_predictions w trainingInput). c \<noteq> GpioEnableInterrupt predictionButton"
    by (rule print_predictions_all) simp_all
  then have "GpioEnableInterrupt predictionButton \<notin> set (print_predictions w trainingInput)"
    by blast
  then have "count_list (print_predictions w trainingInput) (GpioEnableInterrupt predictionButton) = 0"
    by (simp add: count_list_0_iff)
  then show ?thesis
    by (simp add: setup_def)
qed

lemma setup_never_starts_predictionTimer:
  "list_all (\<lambda>c. c \<noteq> TimerStart predictionTimer) (setup w)"
proof -
  have "\<forall>c \<in> set (print_predictions w trainingInput). c \<noteq> TimerStart predictionTimer"
    by (rule print_predictions_all) simp_all
  then show ?thesis
    by (simp add: setup_def list_all_iff)
qed

section \<open>Facts about the devices\<close>

lemma run_append: "run (cs @ ds) h = run ds (run cs h)"
  by (simp add: run_def)

lemma run_Nil: "run [] h = h"
  by (simp add: run_def)

lemma run_Cons: "run (c # cs) h = run cs (exec c h)"
  by (simp add: run_def)

lemma run_print_predictions: "run (print_predictions w xs) h = h"
  by (induction xs arbitrary: h) (simp_all add: run_Nil run_Cons run_append)

lemma run_main_loop: "run (main_loop n) h = h"
  by (induction n arbitrary: h) (simp_all add: run_Nil run_Cons run_append loop_body_def)

lemma run_buttonCallback:
  "run (buttonCallback level) h =
     h\<lparr>port_interrupts := (port_interrupts h)(predictionButton := False),
       timer_running := (timer_running h)(debounceTimer := True)\<rparr>"
  by (simp add: run_Cons run_Nil buttonCallback_def)

lemma run_debounceTimerCallback:
  "run debounceTimerCallback h =
     h\<lparr>timer_running := (timer_running h)(debounceTimer := False),
       port_interrupts := (port_interrupts h)(predictionButton := True)\<rparr>"
  by (simp add: run_Cons run_Nil debounceTimerCallback_def)

lemma run_predictionTimerCallback: "run predictionTimerCallback h = h"
  by (simp add: run_Nil predictionTimerCallback_def)

lemmas run_invoke = run_buttonCallback run_debounceTimerCallback run_predictionTimerCallback

lemma wired_exec: "wired h \<Longrightarrow> harmless c \<Longrightarrow> wired (exec c h)"
  by (cases c) (auto simp: wired_def split: timer.splits)

lemma pin_interrupt_exec:
  "pin_interrupt (exec c h) predictionButton =
     (pin_interrupt h predictionButton \<or> c = GpioEnableInterrupt predictionButton)"
  by (cases c) auto

lemma exec_keeps_timeout:
  "\<not> is_watchdog_init c \<Longrightarrow> watchdog_timeout (exec c h) = watchdog_timeout h"
  by (cases c) simp_all

lemma exec_keeps_stopped:
  "c \<noteq> TimerStart predictionTimer \<Longrightarrow> \<not> timer_running h predictionTimer
     \<Longrightarrow> \<not> timer_running (exec c h) predictionTimer"
  by (cases c) auto

section \<open>Facts about the running system\<close>

lemma steps_Nil: "steps [] s = s"
  by (simp add: steps_def)

lemma steps_Cons: "steps (e # es) s = steps es (step e s)"
  by (simp add: steps_def)

lemma step_PinChange_cases:
  "step (PinChange level) s = s
   \<or> step (PinChange level) s = s\<lparr>button_level := level\<rparr>
   \<or> (\<exists>f. step (PinChange level) s = dispatch f (s\<lparr>button_level := level\<rparr>))"
  by (cases "pin_callback (devices s) predictionButton") auto

subsection \<open>The handshake invariant\<close>

lemma inv_boot: "handshake_inv (boot w level)"
  using setup_enable_once [of w]
  by (simp add: handshake_inv_def boot_def wired_def power_on_def setup_harmless)

lemma dispatch_inv: "handshake_inv s \<Longrightarrow> handshake_inv (dispatch f s)"
  by (cases f) (simp_all add: handshake_inv_def dispatch_def run_invoke wired_def)

lemma inv_step: "handshake_inv s \<Longrightarrow> handshake_inv (step e s)"
proof (cases e)
  case MainCall
  assume inv: "handshake_inv s"
  show ?thesis
  proof (cases "pending s")
    case Nil
    with inv MainCall show ?thesis
      by (simp add: handshake_inv_def loop_body_def run_Cons run_Nil)
  next
    case (Cons c cs)
    from inv Cons have w: "wired (exec c (devices s))"
      by (simp add: handshake_inv_def wired_exec)
    from inv Cons have h: "list_all harmless cs"
      by (simp add: handshake_inv_def)
    from inv Cons have n: "count_list cs (GpioEnableInterrupt predictionButton) \<le> 1"
      by (simp add: handshake_inv_def split: if_splits)
    from inv Cons have p: "pin_interrupt (exec c (devices s)) predictionButton
        \<longrightarrow> GpioEnableInterrupt predictionButton \<notin> set cs"
      by (auto simp: handshake_inv_def pin_interrupt_exec count_list_0_iff)
    from w h n p MainCall Cons show ?thesis
      by (simp add: handshake_inv_def)
  qed
next
  case (PinChange level)
  assume inv: "handshake_inv s"
  have "handshake_inv (s\<lparr>button_level := level\<rparr>)"
    using inv by (simp add: handshake_inv_def)
  then have "handshake_inv (dispatch f (s\<lparr>button_level := level\<rparr>))" for f
    by (rule dispatch_inv)
  with inv \<open>handshake_inv (s\<lparr>button_level := level\<rparr>)\<close>
  have "handshake_inv (step (PinChange level) s)"
    using step_PinChange_cases [of level s] by auto
  with PinChange show ?thesis by simp
next
  case (TimerElapse t)
  assume inv: "handshake_inv s"
  then show ?thesis
    using TimerElapse by (simp add: dispatch_inv split: option.splits)
qed

lemma inv_steps: "handshake_inv s \<Longrightarrow> handshake_inv (steps es s)"
  by (induction es arbitrary: s) (simp_all add: steps_Nil steps_Cons inv_step)

subsection \<open>While the port is masked\<close>

lemma masked_step:
  assumes "handshake_inv s" and "masked s" and "e \<noteq> TimerElapse debounceTimer"
  shows "masked (step e s)
         \<and> count_list (dispatched (step e s)) buttonCallbackFn
             = count_list (dispatched s) buttonCallbackFn"
proof (cases e)
  case MainCall
  show ?thesis
  proof (cases "pending s")
    case Nil
    with assms MainCall show ?thesis
      by (simp add: masked_def loop_body_def run_Cons run_Nil)
  next
    case (Cons c cs)
    from assms(1,2) Cons have "c \<noteq> GpioEnableInterrupt predictionButton" and "harmless c"
      by (auto simp: handshake_inv_def masked_def)
    then have "port_interrupts (exec c (devices s)) predictionButton
                 \<longrightarrow> port_interrupts (devices s) predictionButton"
      by (cases c) auto
    with assms(2) MainCall Cons show ?thesis
      by (simp add: masked_def pin_interrupt_exec)
  qed
next
  case (PinChange level)
  with assms(2) show ?thesis
    by (simp add: masked_def)
next
  case (TimerElapse t)
  with assms(3) have t: "t = predictionTimer"
    by (cases t) simp_all
  from assms(1) have "timer_callback (devices s) predictionTimer
      \<in> {None, Some predictionTimerCallbackFn}"
    by (simp add: handshake_inv_def wired_def)
  with assms(2) TimerElapse t show ?thesis
    by (auto simp: masked_def dispatch_def run_invoke)
qed

lemma masked_steps:
  assumes "handshake_inv s" and "masked s" and "TimerElapse debounceTimer \<notin> set es"
  shows "masked (steps es s)
         \<and> count_list (dispatched (steps es s)) buttonCallbackFn
             = count_list (dispatched s) buttonCallbackFn"
  using assms
proof (induction es arbitrary: s)
  case Nil
  then show ?case by (simp add: steps_Nil)
next
  case (Cons e es)
  from Cons.prems have e: "e \<noteq> TimerElapse debounceTimer" by auto
  have 1: "handshake_inv (step e s)"
    using Cons.prems(1) by (rule inv_step)
  have 2: "masked (step e s)"
    and 3: "count_list (dispatched (step e s)) buttonCallbackFn
             = count_list (dispatched s) buttonCallbackFn"
    using masked_step [OF Cons.prems(1,2) e] by simp_all
  from Cons.prems(3) have 4: "TimerElapse debounceTimer \<notin> set es" by simp
  from Cons.IH [OF 1 2 4] 3 show ?case
    by (simp add: steps_Cons)
qed

lemma button_dispatch_masks:
  assumes "handshake_inv s"
    and "dispatched (step (PinChange level) s) = dispatched s @ [buttonCallbackFn]"
  shows "masked (step (PinChange level) s)"
  using assms
  by (auto simp: masked_def dispatch_def run_invoke
      split: if_splits option.splits callback.splits)

subsection \<open>A watchdog that is never initialised\<close>

lemma dispatch_unarmed: "unarmed_inv s \<Longrightarrow> unarmed_inv (dispatch f s)"
  by (cases f) (simp_all add: unarmed_inv_def dispatch_def run_invoke)

lemma unarmed_step: "unarmed_inv s \<Longrightarrow> unarmed_inv (step e s)"
proof (cases e)
  case MainCall
  assume "unarmed_inv s"
  with MainCall show ?thesis
    by (cases "pending s")
       (simp_all add: unarmed_inv_def exec_keeps_timeout loop_body_def run_Cons run_Nil)
next
  case (PinChange level)
  assume inv: "unarmed_inv s"
  then have "unarmed_inv (s\<lparr>button_level := level\<rparr>)"
    by (simp add: unarmed_inv_def)
  with inv have "unarmed_inv (step (PinChange level) s)"
    using step_PinChange_cases [of level s] dispatch_unarmed [of "s\<lparr>button_level := level\<rparr>"]
    by auto
  with PinChange show ?thesis by simp
next
  case (TimerElapse t)
  assume "unarmed_inv s"
  with TimerElapse show ?thesis
    by (simp add: dispatch_unarmed split: option.splits)
qed

lemma unarmed_steps: "unarmed_inv s \<Longrightarrow> unarmed_inv (steps es s)"
  by (induction es arbitrary: s) (simp_all add: steps_Nil steps_Cons unarmed_step)

lemma unarmed_boot: "\<not> train_result w 100 \<Longrightarrow> unarmed_inv (boot w level)"
  by (simp add: unarmed_inv_def boot_def power_on_def setup_def)

subsection \<open>A timer that is never started\<close>

lemma dispatch_stopped: "stopped_inv s \<Longrightarrow> stopped_inv (dispatch f s)"
  by (cases f) (simp_all add: stopped_inv_def dispatch_def run_invoke)

lemma stopped_step: "stopped_inv s \<Longrightarrow> stopped_inv (step e s)"
proof (cases e)
  case MainCall
  assume "stopped_inv s"
  with MainCall show ?thesis
    by (cases "pending s")
       (simp_all add: stopped_inv_def exec_keeps_stopped loop_body_def run_Cons run_Nil)
next
  case (PinChange level)
  assume inv: "stopped_inv s"
  then have "stopped_inv (s\<lparr>button_level := level\<rparr>)"
    by (simp add: stopped_inv_def)
  with inv have "stopped_inv (step (PinChange level) s)"
    using step_PinChange_cases [of level s] dispatch_stopped [of "s\<lparr>button_level := level\<rparr>"]
    by auto
  with PinChange show ?thesis by simp
next
  case (TimerElapse t)
  assume "stopped_inv s"
  with TimerElapse show ?thesis
    by (simp add: dispatch_stopped split: option.splits)
qed

lemma stopped_steps: "stopped_inv s \<Longrightarrow> stopped_inv (steps es s)"
  by (induction es arbitrary: s) (simp_all add: steps_Nil steps_Cons stopped_step)

lemma stopped_boot: "stopped_inv (boot w level)"
  by (simp add: stopped_inv_def boot_def power_on_def setup_never_starts_predictionTimer)

section \<open>The main loop\<close>

text \<open>
  C1. The loop body of \<open>main\<close> is the single call \<open>watchdog::reset()\<close>; it takes no
  argument and has no branch. Whatever \<open>setup\<close> did and however often the loop has run,
  the next iteration adds exactly that one call to what \<open>main\<close> has done.
\<close>

theorem main_loop_services_watchdog:
  "loop_body = [WatchdogReset] \<and> main w (Suc n) = main w n @ [WatchdogReset]"
  by (simp add: loop_body_def main_def main_loop_snoc del: main_loop.simps)

section \<open>The callbacks\<close>

text \<open>
  C2. Whatever level the pin has, \<open>buttonCallback\<close> makes three calls in this order:
  it disables the interrupts of the button's I/O port, starts the debounce timer, and
  reads the button pin.
\<close>

theorem buttonCallback_order:
  "buttonCallback level =
     [GpioDisableInterruptsOnIoPort predictionButton, TimerStart debounceTimer,
      GpioRead predictionButton]"
  by (simp add: buttonCallback_def)

text \<open>
  C3. The callback registered for the debounce timer makes two calls and no other: it
  stops the debounce timer, then enables the interrupts of the button's I/O port.
\<close>

theorem debounceTimerCallback_calls:
  "invoke debounceTimerCallbackFn level =
     [TimerStop debounceTimer, GpioEnableInterruptsOnIoPort predictionButton]"
  by (simp add: debounceTimerCallback_def)

text \<open>
  C4 asks that every invocation of the 60-second timer's callback triggers a prediction.
  In the code \<open>predictionTimerCallback\<close> makes no call at all and leaves every device as
  it is. Moreover no routine starts \<open>predictionTimer\<close>: \<open>main\<close> never calls its \<open>start\<close>,
  and in no state the system reaches from boot is the timer running.
\<close>

theorem predictionTimerCallback_is_empty:
  "invoke predictionTimerCallbackFn level = []
   \<and> run predictionTimerCallback h = h
   \<and> TimerStart predictionTimer \<notin> set (main w n)
   \<and> \<not> timer_running (devices (steps es (boot w level0))) predictionTimer"
proof -
  have "stopped_inv (steps es (boot w level0))"
    by (intro stopped_steps stopped_boot)
  then show ?thesis
    by (simp add: stopped_inv_def predictionTimerCallback_def run_Nil
        main_never_starts_a_timer)
qed

text \<open>
  C5 asks that \<open>buttonCallback\<close> dispatches a prediction when the pin read reports a
  press. In the code the level read changes nothing: the callback makes the same three
  calls for either level, none of them a prediction, and leaves the devices in the same
  state.
\<close>

theorem buttonCallback_press_dispatches_nothing:
  "buttonCallback True = buttonCallback False
   \<and> filter is_predict (buttonCallback level) = []
   \<and> length (buttonCallback level) = 3
   \<and> run (buttonCallback True) h = run (buttonCallback False) h"
  by (simp add: buttonCallback_def)

section \<open>Setup\<close>

text \<open>
  C6. When \<open>linReg.train(100)\<close> reports failure, \<open>setup\<close> makes exactly six calls: the two
  initialisations, the construction of the model, the one training call, then
  \<open>errorLed.set()\<close> and the diagnostic \<open>printf\<close>. It registers no callback, enables no
  interrupt, does not initialise the watchdog and trains once only.
\<close>

theorem setup_training_failed:
  assumes "\<not> train_result w 100"
  shows "setup w =
           [AdcInit, SerialInit, LinRegConstruct 0.0 0.0 trainingInput treiningOutput 0.1,
            LinRegTrain 100, GpioSet errorLed, SerialPrintf ''Training failed!\<newline>'' []]
         \<and> filter is_registration (setup w) = []
         \<and> filter is_interrupt_enable (setup w) = []
         \<and> filter is_watchdog_init (setup w) = []
         \<and> WatchdogEnableSystemReset \<notin> set (setup w)
         \<and> filter is_train (setup w) = [LinRegTrain 100]"
  using assms by (simp add: setup_def)

theorem setup_training_failed_witness:
  "\<not> train_result world_failed 100
   \<and> length (setup world_failed) = 6
   \<and> filter is_registration (setup world_failed) = []"
proof -
  have h: "\<not> train_result world_failed 100"
    by (simp add: world_failed_def)
  from h setup_training_failed [OF h] show ?thesis
    by simp
qed

text \<open>
  C7. When training succeeds, \<open>setup\<close> makes 43 calls. The callback of the button pin is
  registered by call 37 and the pin's interrupt is enabled by call 40 (counting from 0);
  and wherever \<open>setup\<close> registers a callback and wherever it enables an interrupt, the
  registration comes first.
\<close>

theorem setup_registers_before_enabling:
  assumes "train_result w 100"
  shows "setup w ! 37 = GpioAddCallback predictionButton buttonCallbackFn
         \<and> setup w ! 40 = GpioEnableInterrupt predictionButton
         \<and> length (setup w) = 43
         \<and> (\<forall>i j. i < length (setup w) \<and> j < length (setup w)
                \<and> is_registration (setup w ! i) \<and> is_interrupt_enable (setup w ! j)
              \<longrightarrow> i < j)"
proof -
  let ?pre = "[AdcInit, SerialInit, LinRegConstruct 0.0 0.0 trainingInput treiningOutput 0.1,
       LinRegTrain 100]
      @ print_predictions w trainingInput
      @ [GpioAddCallback predictionButton buttonCallbackFn,
         TimerAddCallback debounceTimer debounceTimerCallbackFn,
         TimerAddCallback predictionTimer predictionTimerCallbackFn]"
  let ?post = "[GpioEnableInterrupt predictionButton, WatchdogInit Timeout1024ms,
        WatchdogEnableSystemReset]"
  have split: "setup w = ?pre @ ?post"
    using assms by (rule setup_success)
  have len: "length (print_predictions w trainingInput) = 33"
    by (simp add: length_print_predictions length_trainingInput)
  have pre: "\<forall>c \<in> set ?pre. \<not> is_interrupt_enable c"
    using print_predictions_all [of "\<lambda>c. \<not> is_interrupt_enable c" w trainingInput] by simp
  have post: "\<forall>c \<in> set ?post. \<not> is_registration c"
    by simp
  have a: "setup w ! 37 = GpioAddCallback predictionButton buttonCallbackFn"
    unfolding split using len by (simp add: nth_append nth_Cons')
  have b: "setup w ! 40 = GpioEnableInterrupt predictionButton"
    unfolding split using len by (simp add: nth_append nth_Cons')
  have c: "length (setup w) = 43"
    unfolding split using len by simp
  have d: "\<forall>i j. i < length (setup w) \<and> j < length (setup w)
                \<and> is_registration (setup w ! i) \<and> is_interrupt_enable (setup w ! j)
              \<longrightarrow> i < j"
    unfolding split using nth_split [OF pre post] by blast
  from a b c d show ?thesis by blast
qed

theorem setup_registers_before_enabling_witness:
  "train_result world_ok 100
   \<and> is_registration (setup world_ok ! 39) \<and> is_interrupt_enable (setup world_ok ! 40)
   \<and> (39::nat) < 40"
proof -
  have h: "train_result world_ok 100"
    by (simp add: world_ok_def)
  have r: "is_registration (setup world_ok ! 39)"
    by code_simp
  have e: "is_interrupt_enable (setup world_ok ! 40)"
    by code_simp
  from setup_registers_before_enabling [OF h] r e have "(39::nat) < 40"
    by simp
  with h r e show ?thesis by simp
qed

text \<open>
  C9. When training succeeds, \<open>setup\<close> initialises the watchdog exactly once, with the
  bucket \<open>Timeout1024ms\<close> (1024 ms), and its last two calls are that initialisation
  followed by \<open>enableSystemReset\<close>; nothing before them services the watchdog, and all
  that \<open>main\<close> does afterwards is to service it. After \<open>setup\<close> the watchdog holds that
  timeout, is in system-reset mode, and no double initialisation has occurred.
\<close>

theorem setup_arms_watchdog:
  assumes "train_result w 100"
  shows "filter is_watchdog_init (setup w) = [WatchdogInit Timeout1024ms]
         \<and> timeout_ms Timeout1024ms = 1024
         \<and> (\<exists>pre. setup w = pre @ [WatchdogInit Timeout1024ms, WatchdogEnableSystemReset]
                  \<and> WatchdogReset \<notin> set pre)
         \<and> main w n = setup w @ replicate n WatchdogReset
         \<and> watchdog_timeout (run (setup w) power_on) = Some Timeout1024ms
         \<and> watchdog_system_reset (run (setup w) power_on)
         \<and> \<not> watchdog_fatal (run (setup w) power_on)"
proof -
  have quiet: "\<forall>c \<in> set (print_predictions w trainingInput).
                 \<not> is_watchdog_init c \<and> c \<noteq> WatchdogReset"
    by (rule print_predictions_all) simp_all
  then have nofilter: "filter is_watchdog_init (print_predictions w trainingInput) = []"
    by (simp add: filter_empty_conv)
  have a: "filter is_watchdog_init (setup w) = [WatchdogInit Timeout1024ms]"
    using assms nofilter by (simp add: setup_def)
  let ?pre = "[AdcInit, SerialInit, LinRegConstruct 0.0 0.0 trainingInput treiningOutput 0.1,
       LinRegTrain 100]
      @ print_predictions w trainingInput
      @ [GpioAddCallback predictionButton buttonCallbackFn,
         TimerAddCallback debounceTimer debounceTimerCallbackFn,
         TimerAddCallback predictionTimer predictionTimerCallbackFn,
         GpioEnableInterrupt predictionButton]"
  have "setup w = ?pre @ [WatchdogInit Timeout1024ms, WatchdogEnableSystemReset]"
    using assms by (simp add: setup_def)
  moreover have "WatchdogReset \<notin> set ?pre"
    using quiet by auto
  ultimately have b: "\<exists>pre. setup w = pre @ [WatchdogInit Timeout1024ms, WatchdogEnableSystemReset]
                  \<and> WatchdogReset \<notin> set pre"
    by blast
  have c: "main w n = setup w @ replicate n WatchdogReset"
    by (simp add: main_def main_loop_replicate)
  have d: "watchdog_timeout (run (setup w) power_on) = Some Timeout1024ms"
    "watchdog_system_reset (run (setup w) power_on)"
    "\<not> watchdog_fatal (run (setup w) power_on)"
    using assms
    by (simp_all add: setup_def run_append run_Cons run_Nil run_print_predictions power_on_def)
  from a b c d show ?thesis by simp
qed

theorem setup_arms_watchdog_witness:
  "train_result world_ok 100
   \<and> filter is_watchdog_init (setup world_ok) = [WatchdogInit Timeout1024ms]
   \<and> watchdog_system_reset (run (setup world_ok) power_on)"
proof -
  have h: "train_result world_ok 100"
    by (simp add: world_ok_def)
  from h setup_arms_watchdog [OF h, of 0] show ?thesis
    by simp
qed

section \<open>The debounce handshake\<close>

text \<open>
  C8. Among the callbacks only \<open>buttonCallback\<close> starts the debounce timer and only
  \<open>debounceTimerCallback\<close> calls \<open>enableInterruptsOnIoPort\<close> on the button; \<open>main\<close> and
  \<open>inputVoltage\<close> do neither. Consequently, in a run of the system from boot: once a change of the button
  pin has dispatched \<open>buttonCallback\<close>, then for as long as the debounce timer has not
  elapsed, whatever else happens (further pin changes, calls of \<open>main\<close>, the other timer),
  the interrupts of the button's port stay disabled and \<open>buttonCallback\<close> is not
  dispatched again.
\<close>

theorem debounce_handshake:
  "(TimerStart debounceTimer \<in> set (invoke f l) \<longleftrightarrow> f = buttonCallbackFn)
   \<and> TimerStart debounceTimer \<notin> set (main w n)
   \<and> (GpioEnableInterruptsOnIoPort predictionButton \<in> set (invoke f l)
        \<longleftrightarrow> f = debounceTimerCallbackFn)
   \<and> GpioEnableInterruptsOnIoPort predictionButton \<notin> set (main w n)
   \<and> TimerStart debounceTimer \<notin> set (fst (inputVoltage w pin))
   \<and> GpioEnableInterruptsOnIoPort predictionButton \<notin> set (fst (inputVoltage w pin))
   \<and> (let s = steps es1 (boot w level0);
          s1 = step (PinChange level) s;
          s2 = steps es2 s1
      in dispatched s1 = dispatched s @ [buttonCallbackFn]
         \<and> TimerElapse debounceTimer \<notin> set es2
         \<longrightarrow> \<not> port_interrupts (devices s2) predictionButton
             \<and> count_list (dispatched s2) buttonCallbackFn
                 = count_list (dispatched s1) buttonCallbackFn)"
proof -
  let ?s = "steps es1 (boot w level0)"
  let ?s1 = "step (PinChange level) ?s"
  let ?s2 = "steps es2 ?s1"
  have inv: "handshake_inv ?s"
    by (rule inv_steps) (rule inv_boot)
  have "\<not> port_interrupts (devices ?s2) predictionButton
        \<and> count_list (dispatched ?s2) buttonCallbackFn
            = count_list (dispatched ?s1) buttonCallbackFn"
    if d: "dispatched ?s1 = dispatched ?s @ [buttonCallbackFn]"
      and e: "TimerElapse debounceTimer \<notin> set es2"
  proof -
    have m: "masked ?s1"
      using inv d by (rule button_dispatch_masks)
    have "handshake_inv ?s1"
      using inv by (rule inv_step)
    from masked_steps [OF this m e] show ?thesis
      by (simp add: masked_def)
  qed
  then show ?thesis
    using start_only_in_buttonCallback [of f l] enable_only_in_debounceTimerCallback [of f l]
      main_never_starts_a_timer [of debounceTimer w n]
      main_never_enables_port [of predictionButton w n]
    by (simp add: Let_def inputVoltage_def)
qed

theorem debounce_handshake_witness:
  "dispatched (step (PinChange False) (steps (replicate 43 MainCall) (boot world_ok True)))
     = dispatched (steps (replicate 43 MainCall) (boot world_ok True)) @ [buttonCallbackFn]
   \<and> TimerElapse debounceTimer
        \<notin> set [PinChange True, MainCall, TimerElapse predictionTimer, PinChange False]
   \<and> \<not> port_interrupts
         (devices (steps [PinChange True, MainCall, TimerElapse predictionTimer, PinChange False]
            (step (PinChange False) (steps (replicate 43 MainCall) (boot world_ok True)))))
         predictionButton
   \<and> count_list
        (dispatched (steps [PinChange True, MainCall, TimerElapse predictionTimer, PinChange False]
            (step (PinChange False) (steps (replicate 43 MainCall) (boot world_ok True)))))
        buttonCallbackFn = 1"
proof -
  have h1: "dispatched (step (PinChange False) (steps (replicate 43 MainCall) (boot world_ok True)))
     = dispatched (steps (replicate 43 MainCall) (boot world_ok True)) @ [buttonCallbackFn]"
    by code_simp
  have h2: "TimerElapse debounceTimer
        \<notin> set [PinChange True, MainCall, TimerElapse predictionTimer, PinChange False]"
    by simp
  have h3: "count_list
      (dispatched (step (PinChange False) (steps (replicate 43 MainCall) (boot world_ok True))))
      buttonCallbackFn = 1"
    by code_simp
  from debounce_handshake
    [of buttonCallbackFn True world_ok 0 2 "replicate 43 MainCall" True False
        "[PinChange True, MainCall, TimerElapse predictionTimer, PinChange False]"]
    h1 h2 h3
  show ?thesis
    by (simp add: Let_def)
qed

section \<open>After a training failure\<close>

text \<open>
  C10. When training fails, \<open>main\<close> makes the six calls of the aborted \<open>setup\<close> and then
  services the watchdog once per loop iteration; it never calls \<open>watchdog::init\<close> or
  \<open>watchdog::enableSystemReset\<close>. The watchdog is therefore not armed after any number
  of iterations, nor in any state the system reaches from boot.
\<close>

theorem training_failure_leaves_watchdog_unarmed:
  assumes "\<not> train_result w 100"
  shows "main w n =
           [AdcInit, SerialInit, LinRegConstruct 0.0 0.0 trainingInput treiningOutput 0.1,
            LinRegTrain 100, GpioSet errorLed, SerialPrintf ''Training failed!\<newline>'' []]
           @ replicate n WatchdogReset
         \<and> filter is_watchdog_init (main w n) = []
         \<and> WatchdogEnableSystemReset \<notin> set (main w n)
         \<and> count_list (main w n) WatchdogReset = n
         \<and> \<not> watchdog_armed (run (main w n) power_on)
         \<and> \<not> watchdog_armed (devices (steps es (boot w level)))"
proof -
  have a: "main w n =
           [AdcInit, SerialInit, LinRegConstruct 0.0 0.0 trainingInput treiningOutput 0.1,
            LinRegTrain 100, GpioSet errorLed, SerialPrintf ''Training failed!\<newline>'' []]
           @ replicate n WatchdogReset"
    using assms by (simp add: main_def setup_def main_loop_replicate)
  have b: "filter is_watchdog_init (main w n) = []"
    unfolding a by (simp add: filter_empty_conv)
  have c: "WatchdogEnableSystemReset \<notin> set (main w n)"
    unfolding a by simp
  have d: "count_list (main w n) WatchdogReset = n"
    unfolding a by (simp add: count_list_replicate_same)
  have e: "\<not> watchdog_armed (run (main w n) power_on)"
    using assms
    by (simp add: main_def setup_def run_append run_Cons run_Nil run_main_loop
        watchdog_armed_def power_on_def)
  have "unarmed_inv (steps es (boot w level))"
    using assms by (intro unarmed_steps unarmed_boot)
  then have f: "\<not> watchdog_armed (devices (steps es (boot w level)))"
    by (simp add: unarmed_inv_def watchdog_armed_def)
  from a b c d e f show ?thesis by blast
qed

theorem training_failure_leaves_watchdog_unarmed_witness:
  "\<not> train_result world_failed 100
   \<and> count_list (main world_failed 5) WatchdogReset = 5
   \<and> \<not> watchdog_armed
         (devices (steps [MainCall, PinChange False, TimerElapse predictionTimer]
            (boot world_failed True)))"
proof -
  have h: "\<not> train_result world_failed 100"
    by (simp add: world_failed_def)
  from h training_failure_leaves_watchdog_unarmed
    [OF h, of 5 "[MainCall, PinChange False, TimerElapse predictionTimer]" True]
  show ?thesis by blast
qed

end
